theory Spec2Isabelle
  imports Complex_Main "HOL-Library.Char_ord"
begin

section \<open>The calculator of main.go: tokenize, shuntingYard, evalRPN\<close>

text \<open>
  The calculator is the pipeline \<open>evalExpr = tokenize ; shuntingYard ; evalRPN\<close> of
  \<^verbatim>\<open>src/main.go\<close> (lines 531-714). A Go \<^verbatim>\<open>string\<close> is a sequence of bytes and
  \<^verbatim>\<open>s[i]\<close> reads one byte, which is what \<^typ>\<open>string\<close> (a list of 8-bit
  \<^typ>\<open>char\<close>) is. A Go slice used as a stack (\<^verbatim>\<open>append\<close> to push,
  \<^verbatim>\<open>stack[len(stack)-1]\<close> for the top) is a list whose head is the top; a slice
  that is only appended to (\<^verbatim>\<open>out\<close>) is a list in the same order.
\<close>

subsection \<open>Tokens and errors\<close>

datatype tokType = tNumber | tOp | tLParen | tRParen

record token =
  "typ" :: tokType
  val :: string

text \<open>The four token shapes that \<open>tokenize\<close> makes (lines 573, 576, 579, 582).\<close>

abbreviation Number :: "string \<Rightarrow> token" where
  "Number s \<equiv> \<lparr>typ = tNumber, val = s\<rparr>"

abbreviation Operator :: "string \<Rightarrow> token" where
  "Operator s \<equiv> \<lparr>typ = tOp, val = s\<rparr>"

abbreviation LParen :: token where
  "LParen \<equiv> \<lparr>typ = tLParen, val = ''(''\<rparr>"

abbreviation RParen :: token where
  "RParen \<equiv> \<lparr>typ = tRParen, val = '')''\<rparr>"

text \<open>
  Every error of the calculator is made by \<^verbatim>\<open>errors.New\<close> or \<^verbatim>\<open>fmt.Errorf\<close>:
  a value that carries its message and nothing else. The datatype has one constructor
  for each message text of the source:
  \<^item> \<open>ErrEmptyExpression\<close>: \<^verbatim>\<open>"empty expression"\<close> (line 561);
  \<^item> \<open>ErrBadChar c\<close>: \<^verbatim>\<open>"bad char: %q"\<close> with the byte \<open>c\<close> (line 585);
  \<^item> \<open>ErrMismatchedParentheses\<close>: \<^verbatim>\<open>"mismatched parentheses"\<close> (lines 651, 659);
  \<^item> \<open>ErrBadNumber\<close>: \<^verbatim>\<open>"bad number"\<close> (line 672);
  \<^item> \<open>ErrBadExpression\<close>: \<^verbatim>\<open>"bad expression"\<close> (lines 679 and 702);
  \<^item> \<open>ErrDivisionByZero\<close>: \<^verbatim>\<open>"division by zero"\<close> (line 694);
  \<^item> \<open>ErrBadResult\<close>: \<^verbatim>\<open>"bad result"\<close> (line 705).
\<close>

datatype error =
    ErrEmptyExpression
  | ErrBadChar char
  | ErrMismatchedParentheses
  | ErrBadNumber
  | ErrBadExpression
  | ErrDivisionByZero
  | ErrBadResult

subsection \<open>float64\<close>

text \<open>
  A \<^verbatim>\<open>float64\<close> is an IEEE 754 binary64 value: a sign and a magnitude, an infinity
  with its sign, or a NaN. \<open>Finite s m\<close> is the value \<open>m\<close> (a rational \<open>\<ge> 0\<close> that
  binary64 represents), negated when \<open>s\<close> holds; \<open>Finite True 0\<close> is the negative zero.
  Each operation is the exact result rounded to the nearest representable value, ties to
  the even significand (\<open>round64\<close>).
\<close>

datatype float64 = Finite bool rat | Infinity bool | NaN

function bitlen :: "int \<Rightarrow> int" where
  "bitlen n = (if n \<le> 0 then 0 else 1 + bitlen (n div 2))"
  by pat_completeness auto
termination
  by (relation "measure nat") auto

declare bitlen.simps [simp del]

definition pow2 :: "int \<Rightarrow> rat" where
  "pow2 e = (if 0 \<le> e then 2 ^ nat e else 1 / 2 ^ nat (- e))"

definition ilog2 :: "rat \<Rightarrow> int" where
  \<comment> \<open>\<open>\<lfloor>log\<^sub>2 x\<rfloor>\<close> for \<open>x > 0\<close>\<close>
  "ilog2 x = (let (n, d) = quotient_of x; l = bitlen n - bitlen d
              in if pow2 l \<le> x then l else l - 1)"

definition roundHalfEven :: "rat \<Rightarrow> int" where
  "roundHalfEven x = (let f = \<lfloor>x\<rfloor>; r = x - of_int f
     in if r < 1 / 2 then f else if 1 / 2 < r then f + 1 else if even f then f else f + 1)"

definition round64 :: "bool \<Rightarrow> rat \<Rightarrow> float64" where
  \<comment> \<open>the magnitude \<open>a \<ge> 0\<close> rounded to 53 significant bits, exponents from -1022 (below
     which the spacing stays \<open>2\<^sup>-\<^sup>1\<^sup>0\<^sup>7\<^sup>4\<close>) to 1023\<close>
  "round64 s a = (if a = 0 then Finite s 0
     else let q = pow2 (max (ilog2 a) (- 1022) - 52);
              y = of_int (roundHalfEven (a / q)) * q
          in if 2 ^ 1024 \<le> y then Infinity s else Finite s y)"

definition signed :: "bool \<Rightarrow> rat \<Rightarrow> rat" where
  "signed s m = (if s then - m else m)"

fun fneg :: "float64 \<Rightarrow> float64" where
  "fneg (Finite s m) = Finite (\<not> s) m"
| "fneg (Infinity s) = Infinity (\<not> s)"
| "fneg NaN = NaN"

fun fadd :: "float64 \<Rightarrow> float64 \<Rightarrow> float64" where
  "fadd (Finite s1 m1) (Finite s2 m2) =
     (let x = signed s1 m1 + signed s2 m2
      in if x = 0 then Finite (s1 \<and> s2) 0 else round64 (x < 0) \<bar>x\<bar>)"
| "fadd (Finite s1 m1) (Infinity s2) = Infinity s2"
| "fadd (Infinity s1) (Finite s2 m2) = Infinity s1"
| "fadd (Infinity s1) (Infinity s2) = (if s1 = s2 then Infinity s1 else NaN)"
| "fadd NaN b = NaN"
| "fadd a NaN = NaN"

definition fsub :: "float64 \<Rightarrow> float64 \<Rightarrow> float64" where
  "fsub a b = fadd a (fneg b)"

fun fmul :: "float64 \<Rightarrow> float64 \<Rightarrow> float64" where
  "fmul (Finite s1 m1) (Finite s2 m2) = round64 (s1 \<noteq> s2) (m1 * m2)"
| "fmul (Finite s1 m1) (Infinity s2) = (if m1 = 0 then NaN else Infinity (s1 \<noteq> s2))"
| "fmul (Infinity s1) (Finite s2 m2) = (if m2 = 0 then NaN else Infinity (s1 \<noteq> s2))"
| "fmul (Infinity s1) (Infinity s2) = Infinity (s1 \<noteq> s2)"
| "fmul NaN b = NaN"
| "fmul a NaN = NaN"

fun fdiv :: "float64 \<Rightarrow> float64 \<Rightarrow> float64" where
  "fdiv (Finite s1 m1) (Finite s2 m2) =
     (if m2 = 0 then (if m1 = 0 then NaN else Infinity (s1 \<noteq> s2))
      else round64 (s1 \<noteq> s2) (m1 / m2))"
| "fdiv (Finite s1 m1) (Infinity s2) = Finite (s1 \<noteq> s2) 0"
| "fdiv (Infinity s1) (Finite s2 m2) = Infinity (s1 \<noteq> s2)"
| "fdiv (Infinity s1) (Infinity s2) = NaN"
| "fdiv NaN b = NaN"
| "fdiv a NaN = NaN"

fun isZero :: "float64 \<Rightarrow> bool" where
  \<comment> \<open>\<^verbatim>\<open>b == 0\<close>: both zeros compare equal to 0\<close>
  "isZero (Finite s m) = (m = 0)"
| "isZero (Infinity s) = False"
| "isZero NaN = False"

fun IsInf :: "float64 \<Rightarrow> bool" where
  \<comment> \<open>\<^verbatim>\<open>math.IsInf(x, 0)\<close>: either infinity\<close>
  "IsInf (Infinity s) = True"
| "IsInf (Finite s m) = False"
| "IsInf NaN = False"

fun IsNaN :: "float64 \<Rightarrow> bool" where
  "IsNaN NaN = True"
| "IsNaN (Finite s m) = False"
| "IsNaN (Infinity s) = False"

subsection \<open>strconv.ParseFloat and strconv.FormatFloat\<close>

definition isNumChar :: "char \<Rightarrow> bool" where
  \<comment> \<open>\<^verbatim>\<open>(c >= '0' && c <= '9') || c == '.'\<close> (lines 568 and 570)\<close>
  "isNumChar c = ((CHR ''0'' \<le> c \<and> c \<le> CHR ''9'') \<or> c = CHR ''.'')"

definition digitsValue :: "string \<Rightarrow> int" where
  "digitsValue ds = foldl (\<lambda>a c. 10 * a + (of_char c - 48)) 0 ds"

definition toFloat64 :: "int \<Rightarrow> nat \<Rightarrow> float64 option" where
  \<comment> \<open>the decimal \<open>n / 10\<^sup>k\<close>, correctly rounded; a value that rounds to an infinity is
     the range error of ParseFloat\<close>
  "toFloat64 n k = (case round64 False (of_int n / 10 ^ k) of
                      Infinity s \<Rightarrow> None
                    | v \<Rightarrow> Some v)"

definition parseDecimal :: "string \<Rightarrow> float64 option" where
  \<comment> \<open>a text of digits and points: digits, at most one point, at least one digit\<close>
  "parseDecimal s =
     (let ip = takeWhile (\<lambda>c. c \<noteq> CHR ''.'') s;
          rest = dropWhile (\<lambda>c. c \<noteq> CHR ''.'') s
      in case rest of
           [] \<Rightarrow> (if ip = [] then None else toFloat64 (digitsValue ip) 0)
         | p # fp \<Rightarrow>
             (if CHR ''.'' \<in> set fp \<or> (ip = [] \<and> fp = []) then None
              else toFloat64 (digitsValue (ip @ fp)) (length fp)))"

definition ParseFloat :: "(string \<Rightarrow> float64 option) \<Rightarrow> string \<Rightarrow> float64 option" where
  \<comment> \<open>\<^verbatim>\<open>strconv.ParseFloat(s, 64)\<close>, \<open>None\<close> when it returns an error. The tokenizer
     makes number texts of digits and points only, and on those the function is
     \<open>parseDecimal\<close>. What the library does with any other text (signs, exponents,
     hexadecimal, underscores, inf, nan) is the parameter \<open>other\<close>.\<close>
  "ParseFloat other s = (if list_all isNumChar s then parseDecimal s else other s)"

function digits10 :: "int \<Rightarrow> string" where
  "digits10 n = (if n < 10 then [char_of (48 + n)]
                 else digits10 (n div 10) @ [char_of (48 + n mod 10)])"
  by pat_completeness auto
termination
  by (relation "measure nat") auto

declare digits10.simps [simp del]

definition FormatFloat :: "(float64 \<Rightarrow> string) \<Rightarrow> float64 \<Rightarrow> string" where
  \<comment> \<open>\<^verbatim>\<open>strconv.FormatFloat(v, 'f', -1, 64)\<close>: the shortest decimal that reads back as
     \<open>v\<close>, without exponent. For an integer below \<open>2\<^sup>5\<^sup>3\<close> that is the integer's own
     digits, after the sign. The digits of every other finite value are the parameter
     \<open>other\<close>.\<close>
  "FormatFloat other v =
     (case v of
        Finite s m \<Rightarrow>
          (if of_int \<lfloor>m\<rfloor> = m \<and> m < 2 ^ 53
           then (if s then ''-'' else []) @ digits10 \<lfloor>m\<rfloor>
           else other v)
      | Infinity s \<Rightarrow> (if s then ''-Inf'' else ''+Inf'')
      | NaN \<Rightarrow> ''NaN'')"

subsection \<open>tokenize (lines 558-606)\<close>

definition isOpChar :: "char \<Rightarrow> bool" where
  "isOpChar c = (c = CHR ''+'' \<or> c = CHR ''-'' \<or> c = CHR ''*'' \<or> c = CHR ''/'')"

text \<open>
  The scanning loop of \<open>tokenize\<close>, on the bytes from index \<open>i\<close> on. A number is the
  longest run of digits and points from \<open>i\<close>: \<open>s[i:j]\<close>.
\<close>

function tokenize_loop :: "string \<Rightarrow> token list \<Rightarrow> error + token list" where
  "tokenize_loop [] out = Inr out"
| "tokenize_loop (c # cs) out =
     (if isNumChar c then
        tokenize_loop (dropWhile isNumChar cs)
          (out @ [Number (c # takeWhile isNumChar cs)])
      else if isOpChar c then tokenize_loop cs (out @ [Operator [c]])
      else if c = CHR ''('' then tokenize_loop cs (out @ [LParen])
      else if c = CHR '')'' then tokenize_loop cs (out @ [RParen])
      else Inl (ErrBadChar c))"
  by pat_completeness auto
termination
  by (relation "measure (\<lambda>(s, out). length s)")
     (auto simp: length_dropWhile_le less_Suc_eq_le)

definition isUnaryMinus :: "token list \<Rightarrow> nat \<Rightarrow> bool" where
  \<comment> \<open>the test of lines 597-598 at index \<open>i < length toks\<close>\<close>
  "isUnaryMinus toks i =
     (typ (toks ! i) = tOp \<and> val (toks ! i) = ''-'' \<and>
      (i = 0 \<or> typ (toks ! (i - 1)) = tOp \<or> typ (toks ! (i - 1)) = tLParen))"

definition rewriteUnaryMinus :: "token list \<Rightarrow> token list" where
  "rewriteUnaryMinus toks =
     concat (map (\<lambda>i. (if isUnaryMinus toks i then [Number ''0''] else [])
                        @ [toks ! i])
                 [0 ..< length toks])"

definition tokenize :: "string \<Rightarrow> error + token list" where
  "tokenize s0 =
     (let s = filter (\<lambda>c. c \<noteq> CHR '' '') s0
      in if s = [] then Inl ErrEmptyExpression
         else case tokenize_loop s [] of
                Inl e \<Rightarrow> Inl e
              | Inr out \<Rightarrow> Inr (rewriteUnaryMinus out))"

subsection \<open>shuntingYard (lines 608-664)\<close>

definition prec :: "string \<Rightarrow> int" where
  "prec op = (if op = ''+'' \<or> op = ''-'' then 1
              else if op = ''*'' \<or> op = ''/'' then 2
              else 0)"

text \<open>The loop of lines 627-635: operators leave the stack while they bind as tightly.\<close>

fun popOps :: "token \<Rightarrow> token list \<Rightarrow> token list \<Rightarrow> token list \<times> token list" where
  "popOps t out [] = (out, [])"
| "popOps t out (tp # stack) =
     (if typ tp = tOp \<and> prec (val tp) \<ge> prec (val t)
      then popOps t (out @ [tp]) stack
      else (out, tp # stack))"

text \<open>The loop of lines 640-649; \<open>None\<close> when \<^verbatim>\<open>found\<close> stays false.\<close>

fun popToLParen :: "token list \<Rightarrow> token list \<Rightarrow> (token list \<times> token list) option" where
  "popToLParen out [] = None"
| "popToLParen out (tp # stack) =
     (if typ tp = tLParen then Some (out, stack)
      else popToLParen (out @ [tp]) stack)"

text \<open>The loop of lines 655-663.\<close>

fun drain :: "token list \<Rightarrow> token list \<Rightarrow> error + token list" where
  "drain out [] = Inr out"
| "drain out (tp # stack) =
     (if typ tp = tLParen \<or> typ tp = tRParen then Inl ErrMismatchedParentheses
      else drain (out @ [tp]) stack)"

fun shuntingYard_loop :: "token list \<Rightarrow> token list \<Rightarrow> token list \<Rightarrow> error + token list" where
  "shuntingYard_loop [] out stack = drain out stack"
| "shuntingYard_loop (t # ts) out stack =
     (case typ t of
        tNumber \<Rightarrow> shuntingYard_loop ts (out @ [t]) stack
      | tOp \<Rightarrow> (case popOps t out stack of
                  (out', stack') \<Rightarrow> shuntingYard_loop ts out' (t # stack'))
      | tLParen \<Rightarrow> shuntingYard_loop ts out (t # stack)
      | tRParen \<Rightarrow> (case popToLParen out stack of
                      None \<Rightarrow> Inl ErrMismatchedParentheses
                    | Some (out', stack') \<Rightarrow> shuntingYard_loop ts out' stack'))"

definition shuntingYard :: "token list \<Rightarrow> error + token list" where
  "shuntingYard toks = shuntingYard_loop toks [] []"

subsection \<open>evalRPN (lines 666-708)\<close>

definition applyOp :: "string \<Rightarrow> float64 \<Rightarrow> float64 \<Rightarrow> error + float64" where
  \<comment> \<open>the switch of lines 685-697; \<^verbatim>\<open>r\<close> stays 0 for any other operator text\<close>
  "applyOp op a b =
     (if op = ''+'' then Inr (fadd a b)
      else if op = ''-'' then Inr (fsub a b)
      else if op = ''*'' then Inr (fmul a b)
      else if op = ''/'' then (if isZero b then Inl ErrDivisionByZero else Inr (fdiv a b))
      else Inr (Finite False 0))"

text \<open>One token of the loop of lines 668-700, on the operand stack \<open>st\<close>.\<close>

definition evalRPN_step ::
  "(string \<Rightarrow> float64 option) \<Rightarrow> token \<Rightarrow> float64 list \<Rightarrow> error + float64 list" where
  "evalRPN_step other t st =
     (if typ t = tNumber then
        (case ParseFloat other (val t) of
           None \<Rightarrow> Inl ErrBadNumber
         | Some v \<Rightarrow> Inr (v # st))
      else if typ t = tOp then
        (case st of
           b # a # rest \<Rightarrow>
             (case applyOp (val t) a b of
                Inl e \<Rightarrow> Inl e
              | Inr r \<Rightarrow> Inr (r # rest))
         | _ \<Rightarrow> Inl ErrBadExpression)
      else Inr st)"

fun evalRPN_loop ::
  "(string \<Rightarrow> float64 option) \<Rightarrow> token list \<Rightarrow> float64 list \<Rightarrow> error + float64 list" where
  "evalRPN_loop other [] st = Inr st"
| "evalRPN_loop other (t # ts) st =
     (case evalRPN_step other t st of
        Inl e \<Rightarrow> Inl e
      | Inr st' \<Rightarrow> evalRPN_loop other ts st')"

definition evalRPN :: "(string \<Rightarrow> float64 option) \<Rightarrow> token list \<Rightarrow> error + float64" where
  "evalRPN other toks =
     (case evalRPN_loop other toks [] of
        Inl e \<Rightarrow> Inl e
      | Inr st \<Rightarrow>
          (case st of
             [v] \<Rightarrow> (if IsInf v \<or> IsNaN v then Inl ErrBadResult else Inr v)
           | _ \<Rightarrow> Inl ErrBadExpression))"

subsection \<open>evalExpr, trimFloat and the handler's use of them\<close>

definition evalExpr :: "(string \<Rightarrow> float64 option) \<Rightarrow> string \<Rightarrow> error + float64" where
  "evalExpr other s =
     (case tokenize s of
        Inl e \<Rightarrow> Inl e
      | Inr toks \<Rightarrow>
          (case shuntingYard toks of
             Inl e \<Rightarrow> Inl e
           | Inr rpn \<Rightarrow> evalRPN other rpn))"

definition trimFloat :: "(float64 \<Rightarrow> string) \<Rightarrow> float64 \<Rightarrow> string" where
  "trimFloat fmt v = FormatFloat fmt v"

text \<open>
  The handler (lines 237-242) answers with the error of \<open>evalExpr\<close>, or with
  \<open>trimFloat\<close> of its value: the \<open>evaluate\<close> of the specification.
\<close>

definition evaluate ::
  "(string \<Rightarrow> float64 option) \<Rightarrow> (float64 \<Rightarrow> string) \<Rightarrow> string \<Rightarrow> error + string" where
  "evaluate other fmt s =
     (case evalExpr other s of
        Inl e \<Rightarrow> Inl e
      | Inr v \<Rightarrow> Inr (trimFloat fmt v))"

subsection \<open>Definitions used by the statements\<close>

text \<open>
  The specification's reading of unbalanced parentheses, on the token sequence alone:
  the tokens are read left to right with the number \<open>d\<close> of LParen tokens still open;
  the sequence is balanced when no RParen arrives with none open and none is open at
  the end.
\<close>

fun balanced :: "nat \<Rightarrow> token list \<Rightarrow> bool" where
  "balanced d [] = (d = 0)"
| "balanced d (t # ts) =
     (case typ t of
        tLParen \<Rightarrow> balanced (Suc d) ts
      | tRParen \<Rightarrow> 0 < d \<and> balanced (d - 1) ts
      | _ \<Rightarrow> balanced d ts)"

text \<open>Invariants of the two sequences of \<open>shuntingYard\<close>.\<close>

definition opOrParen :: "token \<Rightarrow> bool" where
  "opOrParen t = (typ t = tOp \<or> typ t = tLParen)"

definition numOrOp :: "token \<Rightarrow> bool" where
  "numOrOp t = (typ t = tNumber \<or> typ t = tOp)"

definition depth :: "token list \<Rightarrow> nat" where
  "depth stack = length (filter (\<lambda>t. typ t = tLParen) stack)"

text \<open>Every number text is made of digits and points, as the tokenizer makes them.\<close>

definition decimalTexts :: "token list \<Rightarrow> bool" where
  "decimalTexts toks = list_all (\<lambda>t. typ t \<noteq> tNumber \<or> list_all isNumChar (val t)) toks"

text \<open>
  One instance of the parameter of \<open>ParseFloat\<close>, for statements at a concrete input.
  The pipeline never applies the parameter (lemma \<open>evalExpr_other\<close> below).
\<close>

definition noOther :: "string \<Rightarrow> float64 option" where
  "noOther s = None"

text \<open>
  The unary-minus rewrite in the specification's words, token by token: \<open>prev\<close> is the
  token immediately before (\<open>None\<close> at the first token), and Number \<open>"0"\<close> is inserted
  before an Operator \<open>"-"\<close> that is first or follows an Operator or an LParen token; every
  other token is kept as it is.
\<close>

fun insertZeros :: "token option \<Rightarrow> token list \<Rightarrow> token list" where
  "insertZeros prev [] = []"
| "insertZeros prev (t # ts) =
     (if typ t = tOp \<and> val t = ''-'' \<and>
         (case prev of None \<Rightarrow> True | Some p \<Rightarrow> typ p = tOp \<or> typ p = tLParen)
      then [Number ''0'', t] else [t]) @ insertZeros (Some t) ts"

text \<open>The bytes that the scanning loop of \<open>tokenize\<close> accepts (lines 568-583).\<close>

definition accepted :: "char \<Rightarrow> bool" where
  "accepted c = (isNumChar c \<or> isOpChar c \<or> c = CHR ''('' \<or> c = CHR '')'')"









section \<open>Properties\<close>

subsection \<open>The tokenizer\<close>

lemma tokenize_strip: "tokenize (filter (\<lambda>c. c \<noteq> CHR '' '') s) = tokenize s"
  by (simp add: tokenize_def)

lemma tokenize_loop_error:
  "tokenize_loop s out = Inl e \<Longrightarrow> \<exists>c. e = ErrBadChar c \<and> c \<in> set s"
proof (induction s out rule: tokenize_loop.induct)
  case (1 out)
  then show ?case by simp
next
  case (2 c cs out)
  then show ?case
    by (auto split: if_splits dest: set_dropWhileD)
qed

lemma tokenize_error:
  "tokenize s = Inl e \<Longrightarrow>
   e = ErrEmptyExpression \<or> (\<exists>c. e = ErrBadChar c \<and> c \<in> set s \<and> c \<noteq> CHR '' '')"
  by (auto simp: tokenize_def Let_def split: if_splits sum.splits dest!: tokenize_loop_error)

lemma numChar_not_space: "isNumChar c \<Longrightarrow> c \<noteq> CHR '' ''"
  by (auto simp: isNumChar_def)

lemma tokenize_loop_number:
  assumes c: "isNumChar c" and cs: "list_all isNumChar cs"
  shows "tokenize_loop (c # cs) out = Inr (out @ [Number (c # cs)])"
proof -
  from cs have d: "dropWhile isNumChar cs = []" and t: "takeWhile isNumChar cs = cs"
    by (simp_all add: list_all_iff)
  from c show ?thesis by (simp add: d t)
qed

lemma rewrite_single:
  "rewriteUnaryMinus [Number s] = [Number s]"
  by (simp add: rewriteUnaryMinus_def isUnaryMinus_def)

lemma tokenize_number:
  assumes "s \<noteq> []" "list_all isNumChar s"
  shows "tokenize s = Inr [Number s]"
proof -
  from assms obtain c cs where s: "s = c # cs" "isNumChar c" "list_all isNumChar cs"
    by (cases s) auto
  have "filter (\<lambda>c. c \<noteq> CHR '' '') s = s"
    using assms(2) by (auto simp: filter_id_conv list_all_iff dest: numChar_not_space)
  then show ?thesis
    using tokenize_loop_number[OF s(2,3), of "[]"] s(1)
    by (simp add: tokenize_def rewrite_single del: tokenize_loop.simps)
qed

lemma rewrite_no_minus:
  assumes "list_all (\<lambda>t. \<not> (typ t = tOp \<and> val t = ''-'')) toks"
  shows "rewriteUnaryMinus toks = toks"
proof -
  have n: "\<And>i. i < length toks \<Longrightarrow> \<not> isUnaryMinus toks i"
    using assms by (auto simp: isUnaryMinus_def list_all_length)
  have m: "map (\<lambda>i. (if isUnaryMinus toks i then [Number ''0''] else [])
                      @ [toks ! i])
               [0 ..< length toks]
           = map (\<lambda>i. [toks ! i]) [0 ..< length toks]"
    by (rule map_cong) (use n in auto)
  show ?thesis
    unfolding rewriteUnaryMinus_def m by (simp add: concat_map_singleton map_nth)
qed

subsection \<open>The rewrite, token by token\<close>

lemma isUnaryMinus_at:
  "isUnaryMinus (pre @ t # ts) (length pre) =
     (typ t = tOp \<and> val t = ''-'' \<and>
      (case (if pre = [] then None else Some (last pre)) of
         None \<Rightarrow> True | Some p \<Rightarrow> typ p = tOp \<or> typ p = tLParen))"
proof (cases "pre = []")
  case True
  then show ?thesis by (simp add: isUnaryMinus_def)
next
  case False
  then have "(pre @ t # ts) ! (length pre - 1) = last pre"
    by (simp add: nth_append last_conv_nth)
  with False show ?thesis by (simp add: isUnaryMinus_def)
qed

lemma rewrite_from:
  "concat (map (\<lambda>i. (if isUnaryMinus (pre @ ts) i then [Number ''0''] else [])
                      @ [(pre @ ts) ! i])
               [length pre ..< length pre + length ts])
   = insertZeros (if pre = [] then None else Some (last pre)) ts"
proof (induction ts arbitrary: pre)
  case Nil
  then show ?case by simp
next
  case (Cons t ts)
  define F where
    "F = (\<lambda>i. (if isUnaryMinus (pre @ t # ts) i then [Number ''0''] else [])
               @ [(pre @ t # ts) ! i])"
  have u: "[length pre ..< length pre + length (t # ts)]
           = length pre # [Suc (length pre) ..< Suc (length pre) + length ts]"
    by (simp add: upt_conv_Cons del: upt_Suc)
  have h: "F (length pre)
           = (if isUnaryMinus (pre @ t # ts) (length pre) then [Number ''0''] else []) @ [t]"
    by (simp add: F_def)
  have r: "concat (map F [Suc (length pre) ..< Suc (length pre) + length ts])
           = insertZeros (Some t) ts"
    using Cons.IH[of "pre @ [t]"] by (simp add: F_def)
  have "concat (map F [length pre ..< length pre + length (t # ts)])
        = F (length pre) @ concat (map F [Suc (length pre) ..< Suc (length pre) + length ts])"
    by (simp only: u list.map concat.simps)
  also have "\<dots> = insertZeros (if pre = [] then None else Some (last pre)) (t # ts)"
    by (simp only: h r isUnaryMinus_at insertZeros.simps) simp
  finally show ?case by (simp only: F_def)
qed

lemma rewriteUnaryMinus_rule: "rewriteUnaryMinus toks = insertZeros None toks"
  using rewrite_from[of "[]" toks] by (simp add: rewriteUnaryMinus_def)

subsection \<open>A byte outside the alphabet stops the tokenizer\<close>

lemma in_dropWhile: "x \<in> set xs \<Longrightarrow> \<not> P x \<Longrightarrow> x \<in> set (dropWhile P xs)"
  by (induction xs) auto

lemma tokenize_loop_rejects:
  "x \<in> set s \<Longrightarrow> \<not> accepted x \<Longrightarrow> \<exists>c. tokenize_loop s out = Inl (ErrBadChar c)"
proof (induction s out rule: tokenize_loop.induct)
  case (1 out)
  then show ?case by simp
next
  case (2 c cs out)
  show ?case
  proof (cases "isNumChar c")
    case True
    with "2.prems" have "x \<in> set cs" "\<not> isNumChar x" by (auto simp: accepted_def)
    then have "x \<in> set (dropWhile isNumChar cs)" by (rule in_dropWhile)
    from "2.IH"(1)[OF True this "2.prems"(2)] True show ?thesis by simp
  next
    case False
    show ?thesis
    proof (cases "accepted c")
      case True
      with "2.prems" have x: "x \<in> set cs" by auto
      from True False "2.IH"(2-4) x "2.prems"(2) show ?thesis
        by (auto simp: accepted_def)
    next
      case a: False
      then show ?thesis by (simp add: accepted_def)
    qed
  qed
qed

lemma tokenize_rejects:
  assumes "x \<in> set s" "x \<noteq> CHR '' ''" "\<not> accepted x"
  shows "\<exists>c. tokenize s = Inl (ErrBadChar c)"
proof -
  let ?s = "filter (\<lambda>c. c \<noteq> CHR '' '') s"
  from assms have x: "x \<in> set ?s" by simp
  then have "?s \<noteq> []" by (metis list.set(1) empty_iff)
  moreover from tokenize_loop_rejects[OF x assms(3), of "[]"]
  obtain c where "tokenize_loop ?s [] = Inl (ErrBadChar c)" by blast
  ultimately show ?thesis by (simp add: tokenize_def)
qed

subsection \<open>shuntingYard: the operators that leave the stack\<close>



subsection \<open>shuntingYard on a sum of terms\<close>









subsection \<open>shuntingYard: what the two sequences hold\<close>

lemma popOps_inv:
  "popOps t out stack = (out', stack') \<Longrightarrow> list_all numOrOp out \<Longrightarrow> list_all opOrParen stack
   \<Longrightarrow> list_all numOrOp out' \<and> list_all opOrParen stack' \<and> depth stack' = depth stack"
  by (induction t out stack rule: popOps.induct)
     (auto simp: numOrOp_def opOrParen_def depth_def split: if_splits)

lemma popToLParen_inv:
  "popToLParen out stack = Some (out', stack') \<Longrightarrow> list_all numOrOp out
   \<Longrightarrow> list_all opOrParen stack
   \<Longrightarrow> list_all numOrOp out' \<and> list_all opOrParen stack' \<and> Suc (depth stack') = depth stack"
  by (induction out stack rule: popToLParen.induct)
     (auto simp: numOrOp_def opOrParen_def depth_def split: if_splits)

lemma popOps_stack:
  "popOps t out stack = (out', stack') \<Longrightarrow> list_all opOrParen stack
   \<Longrightarrow> list_all opOrParen stack' \<and> depth stack' = depth stack"
  by (induction t out stack rule: popOps.induct)
     (auto simp: opOrParen_def depth_def split: if_splits)

lemma popToLParen_stack:
  "popToLParen out stack = Some (out', stack') \<Longrightarrow> list_all opOrParen stack
   \<Longrightarrow> list_all opOrParen stack' \<and> Suc (depth stack') = depth stack"
  by (induction out stack rule: popToLParen.induct)
     (auto simp: opOrParen_def depth_def split: if_splits)

lemma popToLParen_None:
  "list_all opOrParen stack \<Longrightarrow> (popToLParen out stack = None) = (depth stack = 0)"
  by (induction out stack rule: popToLParen.induct)
     (auto simp: opOrParen_def depth_def)

lemma drain_inv:
  "drain out stack = Inr out' \<Longrightarrow> list_all numOrOp out \<Longrightarrow> list_all numOrOp out'"
  by (induction out stack rule: drain.induct)
     (auto simp: numOrOp_def split: if_splits tokType.splits intro: tokType.exhaust)

lemma drain_fails:
  "list_all opOrParen stack \<Longrightarrow>
   drain out stack = (if depth stack = 0 then drain out stack else Inl ErrMismatchedParentheses)
   \<and> (depth stack = 0 \<longrightarrow> (\<exists>out'. drain out stack = Inr out'))"
  by (induction out stack rule: drain.induct)
     (auto simp: opOrParen_def depth_def)

lemma loop_inv:
  "shuntingYard_loop toks out stack = Inr out' \<Longrightarrow> list_all numOrOp out
   \<Longrightarrow> list_all opOrParen stack \<Longrightarrow> list_all numOrOp out'"
proof (induction toks out stack rule: shuntingYard_loop.induct)
  case (1 out stack)
  then show ?case by (simp add: drain_inv)
next
  case (2 t ts out stack)
  note prems = "2.prems"
  show ?case
  proof (cases "typ t")
    case tNumber
    with prems "2.IH"(1) show ?thesis by (simp add: numOrOp_def)
  next
    case tOp
    obtain o' s' where p: "popOps t out stack = (o', s')" by (cases "popOps t out stack")
    have t: "opOrParen t" using tOp by (simp add: opOrParen_def)
    from popOps_inv[OF p prems(2,3)] have "list_all numOrOp o'" "list_all opOrParen s'" by auto
    with "2.IH"(2)[OF tOp p[symmetric]] prems(1) tOp p t show ?thesis by simp
  next
    case tLParen
    then have "opOrParen t" by (simp add: opOrParen_def)
    with tLParen prems "2.IH"(3) show ?thesis by simp
  next
    case tRParen
    with prems(1) obtain o' s' where p: "popToLParen out stack = Some (o', s')"
      by (auto split: option.splits)
    from popToLParen_inv[OF p prems(2,3)] have "list_all numOrOp o'" "list_all opOrParen s'" by auto
    with prems(1) tRParen p "2.IH"(4) show ?thesis by auto
  qed
qed

lemma loop_fails:
  "list_all opOrParen stack \<Longrightarrow>
   (if balanced (depth stack) toks then (\<exists>out'. shuntingYard_loop toks out stack = Inr out')
    else shuntingYard_loop toks out stack = Inl ErrMismatchedParentheses)"
proof (induction toks out stack rule: shuntingYard_loop.induct)
  case (1 out stack)
  then show ?case using drain_fails[of stack out] by auto
next
  case (2 t ts out stack)
  note inv = "2.prems"
  show ?case
  proof (cases "typ t")
    case tNumber
    with inv "2.IH"(1) show ?thesis by simp
  next
    case tOp
    obtain o' s' where p: "popOps t out stack = (o', s')" by (cases "popOps t out stack")
    have a: "list_all opOrParen s'" "depth s' = depth stack"
      using popOps_stack[OF p inv] by auto
    moreover have "opOrParen t" using tOp by (simp add: opOrParen_def)
    ultimately have "list_all opOrParen (t # s')" "depth (t # s') = depth stack"
      using tOp by (simp_all add: depth_def)
    with "2.IH"(2)[OF tOp p[symmetric]] tOp p show ?thesis by simp
  next
    case tLParen
    moreover from tLParen have "opOrParen t" by (simp add: opOrParen_def)
    ultimately have "list_all opOrParen (t # stack)" "depth (t # stack) = Suc (depth stack)"
      using inv by (simp_all add: depth_def)
    with "2.IH"(3)[OF tLParen] tLParen show ?thesis by simp
  next
    case tRParen
    show ?thesis
    proof (cases "popToLParen out stack")
      case None
      with popToLParen_None[OF inv, of out] tRParen show ?thesis by simp
    next
      case (Some q)
      obtain o' s' where p: "popToLParen out stack = Some (o', s')" using Some by (cases q) auto
      have d: "0 < depth stack" using popToLParen_None[OF inv, of out] p by auto
      have a: "list_all opOrParen s'" "Suc (depth s') = depth stack"
        using popToLParen_stack[OF p inv] by auto
      then have "depth s' = depth stack - 1" by simp
      with "2.IH"(4)[OF tRParen p refl a(1)] tRParen p d show ?thesis by simp
    qed
  qed
qed

lemma shuntingYard_number:
  "shuntingYard [Number s] = Inr [Number s]"
  by (simp add: shuntingYard_def)

subsection \<open>The output of shuntingYard is made of its input\<close>

lemma popOps_set:
  "popOps t out stack = (out', stack') \<Longrightarrow> set out' \<union> set stack' = set out \<union> set stack"
  by (induction t out stack rule: popOps.induct) (auto split: if_splits)

lemma popToLParen_set:
  "popToLParen out stack = Some (out', stack')
   \<Longrightarrow> set out' \<union> set stack' \<subseteq> set out \<union> set stack"
  by (induction out stack rule: popToLParen.induct) (auto split: if_splits)

lemma drain_set: "drain out stack = Inr out' \<Longrightarrow> set out' = set out \<union> set stack"
  by (induction out stack rule: drain.induct) (auto split: if_splits)

lemma loop_set:
  "shuntingYard_loop toks out stack = Inr out'
   \<Longrightarrow> set out' \<subseteq> set toks \<union> set out \<union> set stack"
proof (induction toks out stack rule: shuntingYard_loop.induct)
  case (1 out stack)
  then show ?case by (simp add: drain_set)
next
  case (2 t ts out stack)
  show ?case
  proof (cases "typ t")
    case tNumber
    with 2 show ?thesis by auto
  next
    case tOp
    obtain o' s' where p: "popOps t out stack = (o', s')" by (cases "popOps t out stack")
    with "2.IH"(2)[OF tOp p[symmetric]] "2.prems" tOp popOps_set[OF p] show ?thesis by auto
  next
    case tLParen
    with 2 show ?thesis by auto
  next
    case tRParen
    with "2.prems" obtain o' s' where p: "popToLParen out stack = Some (o', s')"
      by (auto split: option.splits)
    with "2.IH"(4)[OF tRParen p refl] "2.prems" tRParen popToLParen_set[OF p]
    show ?thesis by auto
  qed
qed

subsection \<open>The parameter of ParseFloat is never applied by the pipeline\<close>

lemma tokenize_loop_decimal:
  "tokenize_loop s out = Inr toks \<Longrightarrow> decimalTexts out \<Longrightarrow> decimalTexts toks"
proof (induction s out rule: tokenize_loop.induct)
  case (1 out)
  then show ?case by simp
next
  case (2 c cs out)
  have "list_all isNumChar (takeWhile isNumChar cs)"
    by (auto simp: list_all_iff dest: set_takeWhileD)
  with 2 show ?case
    by (auto simp: decimalTexts_def split: if_splits)
qed

lemma set_rewrite:
  "set (rewriteUnaryMinus toks) \<subseteq> insert (Number ''0'') (set toks)"
  by (auto simp: rewriteUnaryMinus_def split: if_splits)

lemma rewrite_decimal:
  assumes "decimalTexts toks"
  shows "decimalTexts (rewriteUnaryMinus toks)"
proof -
  have "list_all isNumChar ''0''" by (simp add: isNumChar_def)
  with assms set_rewrite[of toks] show ?thesis
    by (auto simp: decimalTexts_def list_all_iff)
qed

lemma tokenize_decimal: "tokenize s = Inr toks \<Longrightarrow> decimalTexts toks"
  using tokenize_loop_decimal[of _ "[]"] rewrite_decimal
  by (auto simp: tokenize_def Let_def decimalTexts_def split: if_splits sum.splits)

lemma shuntingYard_decimal:
  "shuntingYard toks = Inr rpn \<Longrightarrow> decimalTexts toks \<Longrightarrow> decimalTexts rpn"
  using loop_set[of toks "[]" "[]" rpn]
  by (auto simp: shuntingYard_def decimalTexts_def list_all_iff)

lemma step_other:
  "typ t \<noteq> tNumber \<or> list_all isNumChar (val t)
   \<Longrightarrow> evalRPN_step other t st = evalRPN_step other' t st"
  by (auto simp: evalRPN_step_def ParseFloat_def)

lemma loop_other:
  "decimalTexts toks \<Longrightarrow> evalRPN_loop other toks st = evalRPN_loop other' toks st"
proof (induction toks arbitrary: st)
  case Nil
  then show ?case by simp
next
  case (Cons t ts)
  then have "evalRPN_step other t st = evalRPN_step other' t st" "decimalTexts ts"
    by (auto simp: decimalTexts_def intro: step_other)
  with Cons.IH show ?case by (simp split: sum.splits)
qed

lemma evalExpr_other: "evalExpr other s = evalExpr other' s"
proof (cases "tokenize s")
  case (Inl e)
  then show ?thesis by (simp add: evalExpr_def)
next
  case (Inr toks)
  show ?thesis
  proof (cases "shuntingYard toks")
    case (Inl e)
    with Inr show ?thesis by (simp add: evalExpr_def)
  next
    case r: (Inr rpn)
    from tokenize_decimal[OF Inr] shuntingYard_decimal[OF r] have "decimalTexts rpn" by simp
    with Inr r loop_other[of rpn other "[]" other'] show ?thesis
      by (simp add: evalExpr_def evalRPN_def)
  qed
qed

subsection \<open>The evaluator\<close>

lemma evalRPN_loop_append:
  "evalRPN_loop other (pre @ post) st =
     (case evalRPN_loop other pre st of
        Inl e \<Rightarrow> Inl e
      | Inr st' \<Rightarrow> evalRPN_loop other post st')"
  by (induction pre arbitrary: st) (auto split: sum.splits)

lemma div_step:
  "evalRPN_step other (Operator ''/'') (b # a # rest) =
     (if isZero b then Inl ErrDivisionByZero else Inr (fdiv a b # rest))"
  by (simp add: evalRPN_step_def applyOp_def)

lemma short_stack:
  "typ t = tOp \<Longrightarrow> length st < 2 \<Longrightarrow> evalRPN_step other t st = Inl ErrBadExpression"
  by (cases st; cases "tl st") (auto simp: evalRPN_step_def)

lemma residual:
  "evalRPN_loop other toks [] = Inr st \<Longrightarrow> length st \<noteq> 1
   \<Longrightarrow> evalRPN other toks = Inl ErrBadExpression"
  by (cases st; cases "tl st") (auto simp: evalRPN_def)

lemma round64_cases: "(\<exists>m. round64 s a = Finite s m) \<or> round64 s a = Infinity s"
  by (simp add: round64_def Let_def)

lemma toFloat64_finite: "toFloat64 n k = Some v \<Longrightarrow> \<exists>m. v = Finite False m"
  using round64_cases[of False "of_int n / 10 ^ k"]
  by (cases "round64 False (of_int n / 10 ^ k)") (auto simp: toFloat64_def)

lemma parseDecimal_finite: "parseDecimal s = Some v \<Longrightarrow> \<exists>m. v = Finite False m"
  by (auto simp: parseDecimal_def Let_def split: list.splits if_splits dest: toFloat64_finite)

lemma evalRPN_number:
  "list_all isNumChar s \<Longrightarrow>
   evalRPN other [Number s] =
     (case parseDecimal s of None \<Rightarrow> Inl ErrBadNumber | Some v \<Rightarrow> Inr v)"
  by (auto simp: evalRPN_def evalRPN_step_def ParseFloat_def split: option.splits
           dest!: parseDecimal_finite)

lemma no_point_before:
  "filter (\<lambda>c. c = CHR ''.'') s =
   filter (\<lambda>c. c = CHR ''.'') (dropWhile (\<lambda>c. c \<noteq> CHR ''.'') s)"
  by (induction s) auto

lemma two_points:
  assumes "2 \<le> length (filter (\<lambda>c. c = CHR ''.'') s)"
  shows "parseDecimal s = None"
proof (cases "dropWhile (\<lambda>c. c \<noteq> CHR ''.'') s")
  case Nil
  with assms no_point_before[of s] show ?thesis by simp
next
  case (Cons p fp)
  then have p: "p = CHR ''.''" using hd_dropWhile[of "\<lambda>c. c \<noteq> CHR ''.''" s] by auto
  from assms no_point_before[of s] Cons p
  have "filter (\<lambda>c. c = CHR ''.'') fp \<noteq> []" by auto
  then have "CHR ''.'' \<in> set fp" by (auto simp: filter_empty_conv)
  with Cons show ?thesis by (simp add: parseDecimal_def Let_def)
qed

lemma evalExpr_number:
  assumes "s \<noteq> []" "list_all isNumChar s"
  shows "evalExpr other s =
           (case parseDecimal s of None \<Rightarrow> Inl ErrBadNumber | Some v \<Rightarrow> Inr v)"
  using assms by (simp add: evalExpr_def tokenize_number shuntingYard_number evalRPN_number)

subsection \<open>float64: an integer below \<open>2\<^sup>5\<^sup>3\<close> is its own rounding\<close>

lemma bitlen_le: "n < 2 ^ k \<Longrightarrow> bitlen n \<le> int k"
proof (induction k arbitrary: n)
  case 0
  then show ?case by (simp add: bitlen.simps[of n])
next
  case (Suc k)
  show ?case
  proof (cases "n \<le> 0")
    case True
    then show ?thesis by (simp add: bitlen.simps[of n])
  next
    case False
    from Suc.prems have "n div 2 < 2 ^ k" by simp
    from Suc.IH[OF this] False show ?thesis by (simp add: bitlen.simps[of n])
  qed
qed

lemma bitlen_1: "bitlen 1 = 1"
  by (simp add: bitlen.simps[of 1] bitlen.simps[of 0])

lemma roundHalfEven_int: "roundHalfEven (of_int k) = k"
  by (simp add: roundHalfEven_def)

lemma pow2_neg: "pow2 (- int m) = 1 / 2 ^ m"
  by (cases "m = 0") (simp_all add: pow2_def)

lemma ilog2_int:
  assumes "n < 2 ^ 53"
  shows "ilog2 (of_int n) \<le> 52"
proof -
  from assms have "bitlen n \<le> 53" using bitlen_le[of n 53] by simp
  then show ?thesis by (simp add: ilog2_def bitlen_1 Let_def)
qed

lemma round64_int:
  assumes "0 < n" "n < 2 ^ 53"
  shows "round64 s (of_int n) = Finite s (of_int n)"
proof -
  define e where "e = max (ilog2 (of_int n)) (- 1022) - 52"
  have "e \<le> 0" using ilog2_int[OF assms(2)] by (simp add: e_def)
  then obtain m :: nat where m: "e = - int m"
    by (metis nonpos_int_cases)
  have "of_int n / pow2 e = (of_int (n * 2 ^ m) :: rat)"
    by (simp add: m pow2_neg)
  then have "of_int (roundHalfEven (of_int n / pow2 e)) * pow2 e
             = (of_int (n * 2 ^ m) :: rat) * pow2 e"
    by (simp only: roundHalfEven_int)
  also have "\<dots> = of_int n" by (simp add: m pow2_neg)
  finally have y: "of_int (roundHalfEven (of_int n / pow2 e)) * pow2 e = (of_int n :: rat)" .
  have "(of_int n :: rat) < of_int (2 ^ 53)" using assms(2) by (simp only: of_int_less_iff)
  also have "\<dots> < 2 ^ 1024" by simp
  finally have lt: "\<not> (2 ^ 1024 \<le> (of_int n :: rat))" by simp
  from assms(1) have nz: "(of_int n :: rat) \<noteq> 0" by simp
  show ?thesis
    unfolding round64_def Let_def e_def[symmetric] y using nz lt by simp
qed

lemma round64_numeral:
  "(numeral k :: int) < 2 ^ 53 \<Longrightarrow> round64 s (numeral k) = Finite s (numeral k)"
  using round64_int[of "numeral k" s] by simp

lemma round64_one: "round64 s 1 = Finite s 1"
  using round64_int[of 1 s] by simp

lemma round64_zero: "round64 s 0 = Finite s 0"
  by (simp add: round64_def)

text \<open>The equations that evaluate \<open>evalRPN\<close> on the tokens of small integers.\<close>

lemmas eval_defs =
  evalRPN_def evalRPN_step_def applyOp_def fsub_def signed_def
  ParseFloat_def parseDecimal_def toFloat64_def digitsValue_def isNumChar_def
  round64_numeral round64_one round64_zero

section \<open>The claims\<close>

text \<open>
  C10. \<open>evaluate("()")\<close> fails with the error of a malformed expression
  (\<^verbatim>\<open>"bad expression"\<close>), not with mismatched parentheses: the two tokens pass the
  tokenizer, \<open>shuntingYard\<close> returns the empty postfix sequence, and \<open>evalRPN\<close> rejects
  it at its last check, with no value on the operand stack.
\<close>

theorem empty_parentheses_bad_expression:
  "tokenize ''()'' = Inr [LParen, RParen]
   \<and> shuntingYard [LParen, RParen] = Inr []
   \<and> evalRPN other [] = Inl ErrBadExpression
   \<and> evalExpr other ''()'' = Inl ErrBadExpression
   \<and> evalExpr other ''()'' \<noteq> Inl ErrMismatchedParentheses"
  by code_simp

text \<open>
  C9. Whenever \<open>shuntingYard\<close> succeeds, every token of its output is a Number or an
  Operator token, never LParen or RParen; so the two cases of \<open>evalRPN\<close> cover every
  token it receives from the pipeline, and its skip of any other kind is never taken.
\<close>

theorem shuntingYard_output_kinds:
  "shuntingYard toks = Inr rpn \<Longrightarrow> list_all (\<lambda>t. typ t = tNumber \<or> typ t = tOp) rpn"
  using loop_inv[of toks "[]" "[]" rpn] by (simp add: shuntingYard_def numOrOp_def[abs_def])

theorem shuntingYard_output_kinds_witness:
  "shuntingYard [LParen, Number ''2'', Operator ''+'', Number ''3'', RParen, Operator ''*'',
                 Number ''4'']
     = Inr [Number ''2'', Number ''3'', Operator ''+'', Number ''4'', Operator ''*'']
   \<and> list_all (\<lambda>t. typ t = tNumber \<or> typ t = tOp)
        [Number ''2'', Number ''3'', Operator ''+'', Number ''4'', Operator ''*'']"
proof -
  have s: "shuntingYard [LParen, Number ''2'', Operator ''+'', Number ''3'', RParen,
                         Operator ''*'', Number ''4'']
     = Inr [Number ''2'', Number ''3'', Operator ''+'', Number ''4'', Operator ''*'']"
    by (simp add: shuntingYard_def prec_def)
  from shuntingYard_output_kinds[OF s] s show ?thesis by blast
qed

text \<open>
  C6. For every token sequence, \<open>shuntingYard\<close> fails with mismatched parentheses
  exactly when the sequence is not \<open>balanced\<close>: a RParen arrives when no LParen is on
  the stack (it empties the stack without finding one), or an LParen is still on the
  stack when the input is exhausted; otherwise it succeeds. Both \<open>evaluate("(1+2")\<close> and
  \<open>evaluate("1+2)")\<close> fail with mismatched parentheses.
\<close>

theorem mismatched_iff_unbalanced:
  "(shuntingYard toks = Inl ErrMismatchedParentheses) = (\<not> balanced 0 toks)
   \<and> (\<exists>rpn. shuntingYard toks = Inr rpn) = balanced 0 toks
   \<and> evalExpr other ''(1+2'' = Inl ErrMismatchedParentheses
   \<and> evalExpr other ''1+2)'' = Inl ErrMismatchedParentheses"
proof -
  have "list_all opOrParen []" by simp
  from loop_fails[OF this, of toks "[]"]
  have "(shuntingYard toks = Inl ErrMismatchedParentheses) = (\<not> balanced 0 toks)"
       "(\<exists>rpn. shuntingYard toks = Inr rpn) = balanced 0 toks"
    by (auto simp: shuntingYard_def depth_def split: if_splits)
  moreover have "evalExpr other ''(1+2'' = Inl ErrMismatchedParentheses" by code_simp
  moreover have "evalExpr other ''1+2)'' = Inl ErrMismatchedParentheses" by code_simp
  ultimately show ?thesis by blast
qed

theorem mismatched_iff_unbalanced_witness:
  "\<not> balanced 0 [Number ''1'', Operator ''+'', Number ''2'', RParen]
   \<and> shuntingYard [Number ''1'', Operator ''+'', Number ''2'', RParen]
       = Inl ErrMismatchedParentheses"
  using mismatched_iff_unbalanced[of "[Number ''1'', Operator ''+'', Number ''2'', RParen]"]
  by simp

text \<open>
  C3. Only the operator \<open>-\<close> receives the zero insertion. For every token sequence,
  \<open>rewriteUnaryMinus\<close> is the token-by-token rewrite \<open>insertZeros\<close>, which puts a zero
  before a token only when that token is an Operator \<open>"-"\<close> and keeps every other token,
  a \<open>+\<close> among them, alone. So a leading \<open>+\<close> stays the first token whatever follows
  (a leading \<open>-\<close> gets the zero), and a sequence without an Operator \<open>"-"\<close> is not
  changed at all. \<open>evaluate("+3")\<close> therefore fails, with \<^verbatim>\<open>"bad expression"\<close> (the
  error of insufficient operands), and does not evaluate to 3.
\<close>

theorem leading_plus_is_not_rewritten:
  "rewriteUnaryMinus toks = insertZeros None toks
   \<and> (\<not> (typ t = tOp \<and> val t = ''-'') \<longrightarrow>
        insertZeros prev (t # ts) = t # insertZeros (Some t) ts)
   \<and> rewriteUnaryMinus (Operator ''+'' # ts) = Operator ''+'' # insertZeros (Some (Operator ''+'')) ts
   \<and> hd (rewriteUnaryMinus (Operator ''+'' # ts)) = Operator ''+''
   \<and> rewriteUnaryMinus (Operator ''-'' # ts)
       = Number ''0'' # Operator ''-'' # insertZeros (Some (Operator ''-'')) ts
   \<and> (list_all (\<lambda>t. \<not> (typ t = tOp \<and> val t = ''-'')) toks \<longrightarrow> rewriteUnaryMinus toks = toks)
   \<and> tokenize ''+3'' = Inr [Operator ''+'', Number ''3'']
   \<and> tokenize ''-3'' = Inr [Number ''0'', Operator ''-'', Number ''3'']
   \<and> shuntingYard [Operator ''+'', Number ''3''] = Inr [Number ''3'', Operator ''+'']
   \<and> evalExpr other ''+3'' = Inl ErrBadExpression
   \<and> evaluate other fmt ''+3'' = Inl ErrBadExpression"
proof -
  have g: "rewriteUnaryMinus toks = insertZeros None toks"
    by (rule rewriteUnaryMinus_rule)
  have n: "\<not> (typ t = tOp \<and> val t = ''-'') \<longrightarrow>
        insertZeros prev (t # ts) = t # insertZeros (Some t) ts"
    by auto
  have p: "rewriteUnaryMinus (Operator ''+'' # ts)
           = Operator ''+'' # insertZeros (Some (Operator ''+'')) ts"
    by (simp add: rewriteUnaryMinus_rule)
  then have h: "hd (rewriteUnaryMinus (Operator ''+'' # ts)) = Operator ''+''"
    by simp
  have m: "rewriteUnaryMinus (Operator ''-'' # ts)
       = Number ''0'' # Operator ''-'' # insertZeros (Some (Operator ''-'')) ts"
    by (simp add: rewriteUnaryMinus_rule)
  have l: "list_all (\<lambda>t. \<not> (typ t = tOp \<and> val t = ''-'')) toks \<longrightarrow> rewriteUnaryMinus toks = toks"
    using rewrite_no_minus[of toks] by blast
  have t3: "tokenize ''+3'' = Inr [Operator ''+'', Number ''3'']"
    by code_simp
  have m3: "tokenize ''-3'' = Inr [Number ''0'', Operator ''-'', Number ''3'']"
    by code_simp
  have y: "shuntingYard [Operator ''+'', Number ''3''] = Inr [Number ''3'', Operator ''+'']"
    by code_simp
  have r: "evalRPN other [Number ''3'', Operator ''+''] = Inl ErrBadExpression"
    by (simp add: eval_defs)
  have e: "evalExpr other ''+3'' = Inl ErrBadExpression"
    by (simp add: evalExpr_def t3 y r)
  then have v: "evaluate other fmt ''+3'' = Inl ErrBadExpression"
    by (simp add: evaluate_def)
  show ?thesis by (intro conjI) (rule g n p h m l t3 m3 y e v)+
qed

theorem leading_plus_is_not_rewritten_witness:
  "\<not> (typ (Operator ''+'') = tOp \<and> val (Operator ''+'') = ''-'')
   \<and> insertZeros None [Operator ''+'', Number ''3'', Operator ''-'', Number ''1'']
       = Operator ''+'' # insertZeros (Some (Operator ''+'')) [Number ''3'', Operator ''-'', Number ''1'']
   \<and> rewriteUnaryMinus [Operator ''+'', Number ''3'', Operator ''-'', Number ''1'']
       = [Operator ''+'', Number ''3'', Operator ''-'', Number ''1'']
   \<and> list_all (\<lambda>t. \<not> (typ t = tOp \<and> val t = ''-'')) [Operator ''+'', Number ''3'']
   \<and> rewriteUnaryMinus [Operator ''+'', Number ''3''] = [Operator ''+'', Number ''3'']"
proof -
  have a: "\<not> (typ (Operator ''+'') = tOp \<and> val (Operator ''+'') = ''-'')" by simp
  have b: "list_all (\<lambda>t. \<not> (typ t = tOp \<and> val t = ''-'')) [Operator ''+'', Number ''3'']"
    by simp
  have c: "insertZeros None [Operator ''+'', Number ''3'', Operator ''-'', Number ''1'']
           = [Operator ''+'', Number ''3'', Operator ''-'', Number ''1'']"
    by simp
  from leading_plus_is_not_rewritten[of "[Operator ''+'', Number ''3'', Operator ''-'', Number ''1'']"
         "Operator ''+''" None "[Number ''3'', Operator ''-'', Number ''1'']"]
       leading_plus_is_not_rewritten[of "[Operator ''+'', Number ''3'']"]
       a b c
  show ?thesis by simp
qed



text \<open>
  C7. The tokenizer does not validate a number: every non-empty text of digits and
  points is one Number token, which \<open>shuntingYard\<close> passes on, and the text is parsed
  only in \<open>evalRPN\<close>, which fails with \<^verbatim>\<open>"bad number"\<close> when \<open>ParseFloat\<close> rejects
  it; a text with two or more points is rejected. So \<open>"1.2.3"\<close> is a single Number token
  and \<open>evaluate("1.2.3")\<close> fails with the invalid-number error.
\<close>

theorem malformed_number_rejected_by_evalRPN:
  "(s \<noteq> [] \<and> list_all isNumChar s \<longrightarrow>
      tokenize s = Inr [Number s]
      \<and> shuntingYard [Number s] = Inr [Number s]
      \<and> evalExpr other s = (case parseDecimal s of None \<Rightarrow> Inl ErrBadNumber | Some v \<Rightarrow> Inr v)
      \<and> (2 \<le> length (filter (\<lambda>c. c = CHR ''.'') s) \<longrightarrow> evalExpr other s = Inl ErrBadNumber))
   \<and> (typ t = tNumber \<and> ParseFloat other (val t) = None \<longrightarrow>
        evalRPN_step other t st = Inl ErrBadNumber)
   \<and> tokenize ''1.2.3'' = Inr [Number ''1.2.3'']
   \<and> evalExpr other ''1.2.3'' = Inl ErrBadNumber"
proof -
  have n: "''1.2.3'' \<noteq> [] \<and> list_all isNumChar ''1.2.3''" by (simp add: isNumChar_def)
  have "2 \<le> length (filter (\<lambda>c. c = CHR ''.'') ''1.2.3'')" by simp
  then have "parseDecimal ''1.2.3'' = None" by (rule two_points)
  with n have e: "evalExpr other ''1.2.3'' = Inl ErrBadNumber"
    by (simp add: evalExpr_number)
  from n have t: "tokenize ''1.2.3'' = Inr [Number ''1.2.3'']"
    by (simp add: tokenize_number)
  have s: "typ t = tNumber \<and> ParseFloat other (val t) = None \<longrightarrow>
        evalRPN_step other t st = Inl ErrBadNumber"
    by (simp add: evalRPN_step_def)
  from e t s show ?thesis
    using tokenize_number[of s] shuntingYard_number[of s] evalExpr_number[of s other]
          two_points[of s]
    by simp
qed

theorem malformed_number_rejected_by_evalRPN_witness:
  "tokenize ''1.2.3'' = Inr [Number ''1.2.3'']
   \<and> shuntingYard [Number ''1.2.3''] = Inr [Number ''1.2.3'']
   \<and> evalExpr noOther ''1.2.3'' = Inl ErrBadNumber
   \<and> evalRPN_step noOther (Number ''1.2.3'') [] = Inl ErrBadNumber"
proof -
  have a: "''1.2.3'' \<noteq> [] \<and> list_all isNumChar ''1.2.3''" by (simp add: isNumChar_def)
  have b: "2 \<le> length (filter (\<lambda>c. c = CHR ''.'') ''1.2.3'')" by simp
  have c: "typ (Number ''1.2.3'') = tNumber
           \<and> ParseFloat noOther (val (Number ''1.2.3'')) = None"
    by (simp add: ParseFloat_def isNumChar_def two_points)
  from malformed_number_rejected_by_evalRPN[of "''1.2.3''" noOther "Number ''1.2.3''" "[]"]
       a b c
  show ?thesis by blast
qed

text \<open>
  C8. When \<open>evalRPN\<close> reaches an operator \<open>/\<close> with at least two operands, of which
  the right-hand one (pushed later, on top of the stack) is a zero, it fails with
  \<^verbatim>\<open>"division by zero"\<close> and pushes nothing, whatever follows. The test is exact:
  only the two zeros of float64 are zero, and with any other divisor the quotient is
  pushed. \<open>evaluate("1/0")\<close> fails with division by zero.
\<close>

theorem division_by_exact_zero:
  "(evalRPN_loop other pre [] = Inr (b # a # rest) \<and> isZero b \<longrightarrow>
      evalRPN other (pre @ Operator ''/'' # post) = Inl ErrDivisionByZero)
   \<and> (isZero b \<longrightarrow> evalRPN_step other (Operator ''/'') (b # a # rest) = Inl ErrDivisionByZero)
   \<and> (\<not> isZero b \<longrightarrow>
        evalRPN_step other (Operator ''/'') (b # a # rest) = Inr (fdiv a b # rest))
   \<and> isZero b = (b = Finite False 0 \<or> b = Finite True 0)
   \<and> evalExpr other ''1/0'' = Inl ErrDivisionByZero
   \<and> evaluate other fmt ''1/0'' = Inl ErrDivisionByZero"
proof -
  have t: "tokenize ''1/0'' = Inr [Number ''1'', Operator ''/'', Number ''0'']" by code_simp
  have y: "shuntingYard [Number ''1'', Operator ''/'', Number ''0'']
           = Inr [Number ''1'', Number ''0'', Operator ''/'']"
    by code_simp
  have r: "evalRPN other [Number ''1'', Number ''0'', Operator ''/''] = Inl ErrDivisionByZero"
    by (simp add: eval_defs)
  have e: "evalExpr other ''1/0'' = Inl ErrDivisionByZero"
    by (simp add: evalExpr_def t y r)
  then have v: "evaluate other fmt ''1/0'' = Inl ErrDivisionByZero"
    by (simp add: evaluate_def)
  have z: "isZero b = (b = Finite False 0 \<or> b = Finite True 0)"
    by (cases b) auto
  have l: "evalRPN_loop other pre [] = Inr (b # a # rest) \<and> isZero b \<longrightarrow>
      evalRPN other (pre @ Operator ''/'' # post) = Inl ErrDivisionByZero"
    by (simp add: evalRPN_def evalRPN_loop_append div_step)
  from e v z l show ?thesis by (simp add: div_step)
qed

theorem division_by_exact_zero_witness:
  "evalRPN_loop noOther [Number ''1'', Number ''0''] [] = Inr [Finite False 0, Finite False 1]
   \<and> isZero (Finite False 0)
   \<and> evalRPN noOther ([Number ''1'', Number ''0''] @ Operator ''/'' # []) = Inl ErrDivisionByZero
   \<and> \<not> isZero (Finite False 2)
   \<and> evalRPN_step noOther (Operator ''/'') [Finite False 2, Finite False 1]
       = Inr [fdiv (Finite False 1) (Finite False 2)]"
proof -
  have l: "evalRPN_loop noOther [Number ''1'', Number ''0''] []
           = Inr [Finite False 0, Finite False 1]"
    by (simp add: eval_defs)
  have z: "isZero (Finite False 0)" "\<not> isZero (Finite False 2)" by simp_all
  from division_by_exact_zero[of noOther "[Number ''1'', Number ''0'']"
         "Finite False 0" "Finite False 1" "[]" "[]"]
       division_by_exact_zero[of noOther _ "Finite False 2" "Finite False 1" "[]"]
       l z
  show ?thesis by blast
qed

text \<open>
  C4. The code at the input \<open>"3*-2"\<close>: the rewrite inserts Number \<open>"0"\<close> before the
  \<open>-\<close> that follows the operator \<open>*\<close>, which makes the tokens of \<open>3*0-2\<close>;
  \<open>shuntingYard\<close> applies \<open>*\<close> first, and the result is \<open>"-2"\<close>, not the \<open>"-6"\<close> of
  the claim. At \<open>"-5+2"\<close> the result is \<open>"-3"\<close>, as claimed.
\<close>

theorem unary_minus_after_operator:
  "tokenize ''3*-2'' =
     Inr [Number ''3'', Operator ''*'', Number ''0'', Operator ''-'', Number ''2'']
   \<and> shuntingYard [Number ''3'', Operator ''*'', Number ''0'', Operator ''-'', Number ''2''] =
       Inr [Number ''3'', Number ''0'', Operator ''*'', Number ''2'', Operator ''-'']
   \<and> evalExpr other ''3*-2'' = Inr (Finite True 2)
   \<and> evaluate other fmt ''3*-2'' = Inr ''-2''
   \<and> evaluate other fmt ''-5+2'' = Inr ''-3''"
proof -
  have t1: "tokenize ''3*-2'' =
     Inr [Number ''3'', Operator ''*'', Number ''0'', Operator ''-'', Number ''2'']"
    by code_simp
  have y1: "shuntingYard [Number ''3'', Operator ''*'', Number ''0'', Operator ''-'', Number ''2'']
     = Inr [Number ''3'', Number ''0'', Operator ''*'', Number ''2'', Operator ''-'']"
    by code_simp
  have r1: "evalRPN other [Number ''3'', Number ''0'', Operator ''*'', Number ''2'', Operator ''-'']
     = Inr (Finite True 2)"
    by (simp add: eval_defs)
  have x1: "evalExpr other ''3*-2'' = Inr (Finite True 2)"
    by (simp add: evalExpr_def t1 y1 r1)
  have d1: "digits10 2 = ''2''" by code_simp
  have e1: "evaluate other fmt ''3*-2'' = Inr ''-2''"
    by (simp add: evaluate_def x1 trimFloat_def FormatFloat_def d1)
  have t2: "tokenize ''-5+2'' =
     Inr [Number ''0'', Operator ''-'', Number ''5'', Operator ''+'', Number ''2'']"
    by code_simp
  have y2: "shuntingYard [Number ''0'', Operator ''-'', Number ''5'', Operator ''+'', Number ''2'']
     = Inr [Number ''0'', Number ''5'', Operator ''-'', Number ''2'', Operator ''+'']"
    by code_simp
  have r2: "evalRPN other [Number ''0'', Number ''5'', Operator ''-'', Number ''2'', Operator ''+'']
     = Inr (Finite True 3)"
    by (simp add: eval_defs)
  have d2: "digits10 3 = ''3''" by code_simp
  have e2: "evaluate other fmt ''-5+2'' = Inr ''-3''"
    by (simp add: evaluate_def evalExpr_def t2 y2 r2 trimFloat_def FormatFloat_def d2)
  from t1 y1 x1 e1 e2 show ?thesis by (intro conjI) (simp_all only:)
qed

text \<open>
  C2. \<open>tokenize\<close> removes every space (the byte 0x20), and no other byte, before it
  scans. So spaces are never significant: removing every space from an input does not
  change the result of \<open>evaluate\<close>, and a space never is the byte of a bad-char error. Any
  other byte outside the alphabet, a tab or a newline among them, is not removed, and an
  input that holds one fails with the bad-char error.
\<close>

theorem only_spaces_are_stripped:
  "evalExpr other (filter (\<lambda>c. c \<noteq> CHR '' '') s) = evalExpr other s
   \<and> evaluate other fmt (filter (\<lambda>c. c \<noteq> CHR '' '') s) = evaluate other fmt s
   \<and> tokenize s \<noteq> Inl (ErrBadChar CHR '' '')
   \<and> (c \<in> set s \<and> c \<noteq> CHR '' '' \<and> \<not> accepted c \<longrightarrow>
        (\<exists>b. evalExpr other s = Inl (ErrBadChar b)
           \<and> evaluate other fmt s = Inl (ErrBadChar b)))
   \<and> \<not> accepted (CHR 0x09) \<and> \<not> accepted (CHR 0x0A)"
proof -
  have e: "evalExpr other (filter (\<lambda>c. c \<noteq> CHR '' '') s) = evalExpr other s"
    by (simp add: evalExpr_def tokenize_strip)
  then have v: "evaluate other fmt (filter (\<lambda>c. c \<noteq> CHR '' '') s) = evaluate other fmt s"
    by (simp add: evaluate_def)
  have n: "tokenize s \<noteq> Inl (ErrBadChar CHR '' '')"
    using tokenize_error[of s "ErrBadChar CHR '' ''"] by auto
  have r: "c \<in> set s \<and> c \<noteq> CHR '' '' \<and> \<not> accepted c \<longrightarrow>
        (\<exists>b. evalExpr other s = Inl (ErrBadChar b)
           \<and> evaluate other fmt s = Inl (ErrBadChar b))"
    using tokenize_rejects[of c s] by (auto simp: evaluate_def evalExpr_def)
  have w: "\<not> accepted (CHR 0x09)" "\<not> accepted (CHR 0x0A)"
    by (simp_all add: accepted_def isNumChar_def isOpChar_def)
  show ?thesis by (intro conjI) (rule e v n r w)+
qed

theorem only_spaces_are_stripped_witness:
  "CHR 0x09 \<in> set [CHR ''1'', CHR 0x09, CHR ''+'', CHR ''2'']
   \<and> \<not> accepted (CHR 0x09)
   \<and> (\<exists>b. evalExpr noOther [CHR ''1'', CHR 0x09, CHR ''+'', CHR ''2''] = Inl (ErrBadChar b))
   \<and> evalExpr noOther (filter (\<lambda>c. c \<noteq> CHR '' '') ''1 + 2'') = evalExpr noOther ''1 + 2''"
proof -
  have "CHR 0x09 \<in> set [CHR ''1'', CHR 0x09, CHR ''+'', CHR ''2'']" by simp
  moreover have "CHR 0x09 \<noteq> CHR '' ''" by simp
  moreover have "\<not> accepted (CHR 0x09)"
    by (simp add: accepted_def isNumChar_def isOpChar_def)
  ultimately show ?thesis
    using only_spaces_are_stripped[of noOther "[CHR ''1'', CHR 0x09, CHR ''+'', CHR ''2'']"
            _ "CHR 0x09"]
          only_spaces_are_stripped[of noOther "''1 + 2''"]
    by blast
qed

text \<open>
  The claim as it is written fails at the input \<open>1\<close>, tab, \<open>+2\<close>: the tab is a bad
  char, while the same input without the tab evaluates to 3.
\<close>

theorem tab_is_a_bad_char:
  "tokenize [CHR ''1'', CHR 0x09, CHR ''+'', CHR ''2''] = Inl (ErrBadChar (CHR 0x09))
   \<and> evalExpr noOther [CHR ''1'', CHR 0x09, CHR ''+'', CHR ''2''] = Inl (ErrBadChar (CHR 0x09))
   \<and> evalExpr noOther ''1+2'' = Inr (Finite False 3)
   \<and> evalExpr noOther ''1 +2'' = Inr (Finite False 3)"
proof -
  have t: "tokenize [CHR ''1'', CHR 0x09, CHR ''+'', CHR ''2''] = Inl (ErrBadChar (CHR 0x09))"
    by code_simp
  then have e: "evalExpr noOther [CHR ''1'', CHR 0x09, CHR ''+'', CHR ''2'']
                = Inl (ErrBadChar (CHR 0x09))"
    by (simp add: evalExpr_def)
  have t1: "tokenize ''1+2'' = Inr [Number ''1'', Operator ''+'', Number ''2'']" by code_simp
  have t2: "tokenize ''1 +2'' = Inr [Number ''1'', Operator ''+'', Number ''2'']" by code_simp
  have y: "shuntingYard [Number ''1'', Operator ''+'', Number ''2'']
           = Inr [Number ''1'', Number ''2'', Operator ''+'']"
    by code_simp
  have r: "evalRPN noOther [Number ''1'', Number ''2'', Operator ''+''] = Inr (Finite False 3)"
    by (simp add: eval_defs)
  from t e show ?thesis by (simp add: evalExpr_def t1 t2 y r)
qed

text \<open>
  C1. An error of \<open>evaluate\<close> is its message and nothing else, and the code has seven
  messages. Empty expression, bad char, mismatched parentheses, bad number, division by
  zero and bad result each have a message of their own. The two remaining kinds share one:
  an operator with fewer than two operands and a final stack that does not hold exactly
  one value both return \<^verbatim>\<open>"bad expression"\<close>, so the caller cannot tell
  \<open>evaluate("*3")\<close> from \<open>evaluate("2(3)")\<close> by the error.
\<close>

theorem bad_expression_is_shared:
  "(typ t = tOp \<and> length st < 2 \<longrightarrow> evalRPN_step other t st = Inl ErrBadExpression)
   \<and> (evalRPN_loop other toks [] = Inr st' \<and> length st' \<noteq> 1 \<longrightarrow>
        evalRPN other toks = Inl ErrBadExpression)
   \<and> (evalRPN_loop other toks [] = Inr [v] \<and> (IsInf v \<or> IsNaN v) \<longrightarrow>
        evalRPN other toks = Inl ErrBadResult)
   \<and> evalExpr other ''*3'' = Inl ErrBadExpression
   \<and> evalExpr other ''2(3)'' = Inl ErrBadExpression
   \<and> evalExpr other [] = Inl ErrEmptyExpression
   \<and> evalExpr other ''2+a'' = Inl (ErrBadChar CHR ''a'')
   \<and> evalExpr other ''(1+2'' = Inl ErrMismatchedParentheses
   \<and> evalExpr other ''1.2.3'' = Inl ErrBadNumber
   \<and> evalExpr other ''1/0'' = Inl ErrDivisionByZero"
proof -
  have a: "typ t = tOp \<and> length st < 2 \<longrightarrow> evalRPN_step other t st = Inl ErrBadExpression"
    using short_stack[of t st other] by blast
  have b: "evalRPN_loop other toks [] = Inr st' \<and> length st' \<noteq> 1 \<longrightarrow>
        evalRPN other toks = Inl ErrBadExpression"
    using residual[of other toks st'] by blast
  have c: "evalRPN_loop other toks [] = Inr [v] \<and> (IsInf v \<or> IsNaN v) \<longrightarrow>
        evalRPN other toks = Inl ErrBadResult"
    by (auto simp: evalRPN_def)
  have t1: "tokenize ''*3'' = Inr [Operator ''*'', Number ''3'']" by code_simp
  have y1: "shuntingYard [Operator ''*'', Number ''3''] = Inr [Number ''3'', Operator ''*'']"
    by code_simp
  have r1: "evalRPN other [Number ''3'', Operator ''*''] = Inl ErrBadExpression"
    by (simp add: eval_defs)
  have e1: "evalExpr other ''*3'' = Inl ErrBadExpression"
    by (simp add: evalExpr_def t1 y1 r1)
  have t2: "tokenize ''2(3)'' = Inr [Number ''2'', LParen, Number ''3'', RParen]" by code_simp
  have y2: "shuntingYard [Number ''2'', LParen, Number ''3'', RParen]
            = Inr [Number ''2'', Number ''3'']"
    by code_simp
  have r2: "evalRPN other [Number ''2'', Number ''3''] = Inl ErrBadExpression"
    by (simp add: eval_defs)
  have e2: "evalExpr other ''2(3)'' = Inl ErrBadExpression"
    by (simp add: evalExpr_def t2 y2 r2)
  have e3: "evalExpr other [] = Inl ErrEmptyExpression"
    by (simp add: evalExpr_def tokenize_def)
  have e4: "evalExpr other ''2+a'' = Inl (ErrBadChar CHR ''a'')" by code_simp
  have e5: "evalExpr other ''(1+2'' = Inl ErrMismatchedParentheses" by code_simp
  have e6: "evalExpr other ''1.2.3'' = Inl ErrBadNumber" by code_simp
  have t7: "tokenize ''1/0'' = Inr [Number ''1'', Operator ''/'', Number ''0'']" by code_simp
  have y7: "shuntingYard [Number ''1'', Operator ''/'', Number ''0'']
           = Inr [Number ''1'', Number ''0'', Operator ''/'']"
    by code_simp
  have r7: "evalRPN other [Number ''1'', Number ''0'', Operator ''/''] = Inl ErrDivisionByZero"
    by (simp add: eval_defs)
  have e7: "evalExpr other ''1/0'' = Inl ErrDivisionByZero"
    by (simp add: evalExpr_def t7 y7 r7)
  show ?thesis by (intro conjI) (rule a b c e1 e2 e3 e4 e5 e6 e7)+
qed

theorem bad_expression_is_shared_witness:
  "typ (Operator ''*'') = tOp \<and> length [Finite False 3] < 2
   \<and> evalRPN_step noOther (Operator ''*'') [Finite False 3] = Inl ErrBadExpression
   \<and> evalRPN_loop noOther [Number ''2'', Number ''3''] [] = Inr [Finite False 3, Finite False 2]
   \<and> length [Finite False 3, Finite False 2] \<noteq> 1
   \<and> evalRPN noOther [Number ''2'', Number ''3''] = Inl ErrBadExpression"
proof -
  have a: "typ (Operator ''*'') = tOp \<and> length [Finite False 3] < 2" by simp
  have l: "evalRPN_loop noOther [Number ''2'', Number ''3''] []
           = Inr [Finite False 3, Finite False 2]"
    by (simp add: eval_defs)
  have n: "length [Finite False 3, Finite False 2] \<noteq> 1" by simp
  from bad_expression_is_shared[of "Operator ''*''" "[Finite False 3]" noOther
         "[Number ''2'', Number ''3'']" "[Finite False 3, Finite False 2]"] a l n
  show ?thesis by blast
qed

text \<open>
  The claim as it is written fails: the insufficient-operands input \<open>"*3"\<close> and the
  malformed-expression input \<open>"2(3)"\<close> return the same error.
\<close>

theorem insufficient_and_malformed_same_error:
  "evalExpr noOther ''*3'' = Inl ErrBadExpression
   \<and> evalExpr noOther ''2(3)'' = Inl ErrBadExpression
   \<and> evalExpr noOther ''*3'' = evalExpr noOther ''2(3)''"
proof -
  have t1: "tokenize ''*3'' = Inr [Operator ''*'', Number ''3'']" by code_simp
  have y1: "shuntingYard [Operator ''*'', Number ''3''] = Inr [Number ''3'', Operator ''*'']"
    by code_simp
  have r1: "evalRPN noOther [Number ''3'', Operator ''*''] = Inl ErrBadExpression"
    by (simp add: eval_defs)
  have t2: "tokenize ''2(3)'' = Inr [Number ''2'', LParen, Number ''3'', RParen]" by code_simp
  have y2: "shuntingYard [Number ''2'', LParen, Number ''3'', RParen]
            = Inr [Number ''2'', Number ''3'']"
    by code_simp
  have r2: "evalRPN noOther [Number ''2'', Number ''3''] = Inl ErrBadExpression"
    by (simp add: eval_defs)
  show ?thesis by (simp add: evalExpr_def t1 y1 r1 t2 y2 r2)
qed

end
